theory Spec2Isabelle
  imports Main
begin

section \<open>Data model\<close>

text \<open>
  The clear modes imported from \<^verbatim>\<open>pyanaconda.core.constants\<close>: five distinct
  constants, compared by equality only.
\<close>

datatype clear_part_type =
    CLEAR_PARTITIONS_DEFAULT
  | CLEAR_PARTITIONS_NONE
  | CLEAR_PARTITIONS_ALL
  | CLEAR_PARTITIONS_LINUX
  | CLEAR_PARTITIONS_LIST

text \<open>\<^verbatim>\<open>class StorageDiscoveryConfig\<close>, with the fields its constructor sets.\<close>

record StorageDiscoveryConfig =
  clear_part_type :: clear_part_type
  clear_part_disks :: "string list"
  clear_part_devices :: "string list"
  initialize_disks :: bool
  protected_dev_specs :: "string list"
  zero_mbr :: bool
  clear_non_existent :: bool

text \<open>
  The attributes of \<^verbatim>\<open>device.format\<close> that the code reads. \<open>fmt_type\<close> is
  \<^verbatim>\<open>format.type\<close> (\<open>None\<close> for no recognised format), \<open>fmt_exists\<close> is
  \<^verbatim>\<open>format.exists\<close>, and \<open>free\<close> is \<open>Some n\<close> exactly when
  \<^verbatim>\<open>hasattr(format, "free")\<close> holds. Sizes are byte counts.
\<close>

record device_format =
  fmt_type :: "string option"
  fmt_exists :: bool
  linux_native :: bool
  hidden :: bool
  free :: "nat option"

text \<open>
  A device of the Device Graph, with the attributes the code reads. Devices refer to each
  other by name (the graph holds one device per name): \<open>parents\<close> are the names of
  \<^verbatim>\<open>device.parents\<close>, \<open>disks\<close> the names of \<^verbatim>\<open>device.disks\<close>, \<open>dev_disk\<close> the name of
  \<^verbatim>\<open>device.disk\<close>. \<open>is_partition\<close> is \<^verbatim>\<open>isinstance(device, PartitionDevice)\<close>,
  \<open>dev_exists\<close> is \<^verbatim>\<open>device.exists\<close>, \<open>dev_size\<close> is \<^verbatim>\<open>device.size\<close>, the three flags are
  \<^verbatim>\<open>device.get_flag(parted.PARTITION_LVM)\<close>, \<^verbatim>\<open>..._RAID\<close> and \<^verbatim>\<open>..._SWAP\<close>, and
  \<open>number\<close> is \<^verbatim>\<open>device.parted_partition.number\<close> when that attribute is there. The
  attributes of partitions (\<open>is_magic\<close>, \<open>is_primary\<close>, \<open>is_logical\<close>, the flags) are read
  of partitions and of the children of a partitioned device, which are its partitions.
\<close>

record device =
  name :: string
  is_disk :: bool
  is_partition :: bool
  dev_exists :: bool
  protected :: bool
  partitioned :: bool
  format :: device_format
  parents :: "string list"
  disks :: "string list"
  dev_disk :: "string option"
  dev_size :: nat
  is_magic :: bool
  is_primary :: bool
  is_logical :: bool
  flag_lvm :: bool
  flag_raid :: bool
  flag_swap :: bool
  number :: "nat option"

text \<open>
  The part of \<^verbatim>\<open>InstallerStorage\<close> the clearing policy works on: the configuration,
  the devices of the device tree, the protected names collected at reset time, the name
  of the live backing device, and the warnings logged by \<^verbatim>\<open>clear_partitions\<close>.
\<close>

record storage =
  config :: StorageDiscoveryConfig
  devices :: "device list"
  protected_dev_names :: "string list"
  live_backing_device :: "string option"
  warnings :: "string list"

text \<open>The keyword arguments of \<^verbatim>\<open>should_clear\<close>; \<open>None\<close> is an absent keyword.\<close>

record kwargs =
  kw_clear_part_type :: "clear_part_type option"
  kw_clear_part_disks :: "string list option"
  kw_clear_part_devices :: "string list option"

definition no_kwargs :: kwargs where
  "no_kwargs = \<lparr>kw_clear_part_type = None, kw_clear_part_disks = None,
                 kw_clear_part_devices = None\<rparr>"

section \<open>Device Graph queries\<close>

text \<open>
  Modelled from the spec: the Device Graph is an external collaborator (the blivet
  library) that is not in the sources. \<^verbatim>\<open>device.children\<close> are the devices that have the
  device among their parents.
\<close>

definition children :: "device list \<Rightarrow> device \<Rightarrow> device list" where
  "children devs d = filter (\<lambda>c. name d \<in> set (parents c)) devs"

text \<open>
  Modelled from the spec: the names reached from the devices named \<open>ns\<close> by following
  parent links at most \<open>k\<close> times, and the transitive parent set of a device. A graph of
  \<open>n\<close> devices without cycles has no parent chain longer than \<open>n\<close>.
\<close>

fun ancestor_names :: "nat \<Rightarrow> device list \<Rightarrow> string list \<Rightarrow> string list" where
  "ancestor_names 0 devs ns = []"
| "ancestor_names (Suc k) devs ns =
     (let ps = concat (map parents (filter (\<lambda>d. name d \<in> set ns) devs))
      in ps @ ancestor_names k devs ps)"

definition ancestors :: "device list \<Rightarrow> device \<Rightarrow> string list" where
  "ancestors devs d = parents d @ ancestor_names (length devs) devs (parents d)"

text \<open>
  Modelled from the spec: \<^verbatim>\<open>devicetree.get_dependent_devices(device)\<close>, the interface
  \<^verbatim>\<open>dependents_of(device)\<close>, returns the transitive descendants of the device.
\<close>

definition get_dependent_devices :: "device list \<Rightarrow> device \<Rightarrow> device list" where
  "get_dependent_devices devs d = filter (\<lambda>c. name d \<in> set (ancestors devs c)) devs"

section \<open>The clear policy\<close>

text \<open>\<^verbatim>\<open>InstallerStorage.empty_device\<close>.\<close>

definition empty_device :: "storage \<Rightarrow> device \<Rightarrow> bool" where
  "empty_device st device =
     (if partitioned device then list_all is_magic (children (devices st) device)
      else fmt_type (format device) = None)"

text \<open>
  The loop over \<^verbatim>\<open>device.disks\<close> that opens \<^verbatim>\<open>should_clear\<close>: \<open>True\<close> when the loop
  reaches its \<^verbatim>\<open>return False\<close>.
\<close>

fun disk_scope_rejects :: "string list \<Rightarrow> string list \<Rightarrow> bool" where
  "disk_scope_rejects cpd [] = False"
| "disk_scope_rejects cpd (d # ds) =
     (if cpd \<noteq> [] \<and> d \<notin> set cpd then True else disk_scope_rejects cpd ds)"

text \<open>
  The three settings \<^verbatim>\<open>should_clear\<close> reads with \<^verbatim>\<open>kwargs.get(key, self.config.key)\<close>:
  a keyword overrides the configuration.
\<close>

definition effective_type :: "storage \<Rightarrow> kwargs \<Rightarrow> clear_part_type" where
  "effective_type st kw =
     (case kw_clear_part_type kw of Some t \<Rightarrow> t | None \<Rightarrow> clear_part_type (config st))"

definition effective_disks :: "storage \<Rightarrow> kwargs \<Rightarrow> string list" where
  "effective_disks st kw =
     (case kw_clear_part_disks kw of Some l \<Rightarrow> l | None \<Rightarrow> clear_part_disks (config st))"

definition effective_devices :: "storage \<Rightarrow> kwargs \<Rightarrow> string list" where
  "effective_devices st kw =
     (case kw_clear_part_devices kw of Some l \<Rightarrow> l
      | None \<Rightarrow> clear_part_devices (config st))"

text \<open>\<^verbatim>\<open>InstallerStorage.should_clear\<close>, one branch per \<^verbatim>\<open>return\<close> of the source.\<close>

definition should_clear :: "storage \<Rightarrow> device \<Rightarrow> kwargs \<Rightarrow> bool" where
  "should_clear st device kw =
     (let cfg = config st;
          cpt = effective_type st kw;
          cpd = effective_disks st kw;
          cpv = effective_devices st kw
      in
      if disk_scope_rejects cpd (disks device) then False
      else if \<not> clear_non_existent cfg \<and>
              ((is_disk device \<and> \<not> fmt_exists (format device)) \<or>
               (\<not> is_disk device \<and> \<not> dev_exists device)) then False
      else if (cpt = CLEAR_PARTITIONS_NONE \<or> cpt = CLEAR_PARTITIONS_DEFAULT) \<and>
              (\<not> initialize_disks cfg \<or> \<not> is_disk device) then False
      else if (cpt = CLEAR_PARTITIONS_NONE \<or> cpt = CLEAR_PARTITIONS_DEFAULT) \<and>
              \<not> empty_device st device then False
      else if is_partition device \<and> is_magic device then False
      else if is_partition device \<and> \<not> is_primary device \<and> \<not> is_logical device then False
      else if is_partition device \<and> cpt = CLEAR_PARTITIONS_LINUX \<and>
              \<not> linux_native (format device) \<and> \<not> flag_lvm device \<and>
              \<not> flag_raid device \<and> \<not> flag_swap device then False
      else if \<not> is_partition device \<and> is_disk device \<and> partitioned device \<and>
              cpt \<noteq> CLEAR_PARTITIONS_ALL \<and> \<not> empty_device st device then False
      else if \<not> is_partition device \<and> is_disk device \<and> hidden (format device) then False
      else if \<not> is_partition device \<and> is_disk device \<and> cpt = CLEAR_PARTITIONS_LINUX \<and>
              \<not> ((initialize_disks cfg \<and> empty_device st device) \<or>
                 (\<not> partitioned device \<and> linux_native (format device))) then False
      else if protected device \<or>
              list_ex protected (get_dependent_devices (devices st) device) then False
      else if cpt = CLEAR_PARTITIONS_LIST \<and> name device \<notin> set cpv then False
      else True)"

section \<open>The free space calculator\<close>

datatype error = AttributeError

text \<open>
  Modelled from the spec: \<^verbatim>\<open>self.partitions\<close> and \<^verbatim>\<open>self.disks\<close>, the interface
  \<^verbatim>\<open>list_partitions()\<close> and \<^verbatim>\<open>list_disks()\<close> of the Device Graph.
\<close>

definition partitions :: "storage \<Rightarrow> device list" where
  "partitions st = filter is_partition (devices st)"

definition storage_disks :: "storage \<Rightarrow> device list" where
  "storage_disks st = filter is_disk (devices st)"

text \<open>
  The keywords \<^verbatim>\<open>get_free_space\<close> passes to \<^verbatim>\<open>should_clear\<close>:
  \<^verbatim>\<open>clear_part_type=clear_part_type, clear_part_disks=[disk.name]\<close>.
\<close>

definition free_space_kwargs :: "clear_part_type \<Rightarrow> device \<Rightarrow> kwargs" where
  "free_space_kwargs cpt disk = \<lparr>kw_clear_part_type = Some cpt,
     kw_clear_part_disks = Some [name disk], kw_clear_part_devices = None\<rparr>"

text \<open>
  The inner loop of \<^verbatim>\<open>get_free_space\<close> over the partitions of one disk; the accumulator
  is \<open>(disk_free, fs_free)\<close>.
\<close>

fun partitions_free :: "storage \<Rightarrow> clear_part_type \<Rightarrow> device \<Rightarrow> device list \<Rightarrow>
    nat \<times> nat \<Rightarrow> nat \<times> nat" where
  "partitions_free st cpt disk [] acc = acc"
| "partitions_free st cpt disk (part # rest) (disk_free, fs_free) =
     partitions_free st cpt disk rest
       (if should_clear st part (free_space_kwargs cpt disk)
        then (disk_free + dev_size part, fs_free)
        else (case free (format part) of
                Some f \<Rightarrow> (disk_free, fs_free + f)
              | None \<Rightarrow> (disk_free, fs_free)))"

text \<open>
  The body of the outer loop: the entry of one disk. Reading \<^verbatim>\<open>disk.format.free\<close> of a
  partitioned disk whose format has no such attribute raises.
\<close>

definition disk_free_space :: "storage \<Rightarrow> clear_part_type \<Rightarrow> device \<Rightarrow> error + (nat \<times> nat)" where
  "disk_free_space st cpt disk =
     (if should_clear st disk (free_space_kwargs cpt disk) then Inr (dev_size disk, 0)
      else if partitioned disk then
        (case free (format disk) of
           None \<Rightarrow> Inl AttributeError
         | Some f \<Rightarrow> Inr (partitions_free st cpt disk
                          (filter (\<lambda>p. dev_disk p = Some (name disk)) (partitions st)) (f, 0)))
      else (case free (format disk) of
              Some f \<Rightarrow> Inr (0, f)
            | None \<Rightarrow> if fmt_type (format disk) = None then Inr (dev_size disk, 0)
                      else Inr (0, 0)))"

fun free_space_loop :: "storage \<Rightarrow> clear_part_type \<Rightarrow> device list \<Rightarrow>
    (string \<rightharpoonup> nat \<times> nat) \<Rightarrow> error + (string \<rightharpoonup> nat \<times> nat)" where
  "free_space_loop st cpt [] fr = Inr fr"
| "free_space_loop st cpt (disk # rest) fr =
     (case disk_free_space st cpt disk of
        Inl e \<Rightarrow> Inl e
      | Inr v \<Rightarrow> free_space_loop st cpt rest (fr(name disk \<mapsto> v)))"

text \<open>\<^verbatim>\<open>InstallerStorage.get_free_space(disks=None, clear_part_type=None)\<close>.\<close>

definition get_free_space :: "storage \<Rightarrow> device list option \<Rightarrow> clear_part_type option \<Rightarrow>
    error + (string \<rightharpoonup> nat \<times> nat)" where
  "get_free_space st disks_arg cpt_arg =
     (let ds = (case disks_arg of None \<Rightarrow> storage_disks st | Some l \<Rightarrow> l);
          cpt = (case cpt_arg of None \<Rightarrow> clear_part_type (config st) | Some t \<Rightarrow> t)
      in free_space_loop st cpt ds Map.empty)"

section \<open>Protected device handling\<close>

text \<open>
  Setting \<^verbatim>\<open>device.protected = True\<close> on the device of a given name. Modelled from the
  spec: \<^verbatim>\<open>devicetree.get_device_by_name\<close> of the Device Graph returns the device of that
  name, or \<^verbatim>\<open>None\<close>.
\<close>

definition set_protected :: "string \<Rightarrow> device list \<Rightarrow> device list" where
  "set_protected n devs = map (\<lambda>d. if name d = n then d\<lparr>protected := True\<rparr> else d) devs"

definition get_device_by_name :: "device list \<Rightarrow> string \<Rightarrow> device option" where
  "get_device_by_name devs n = find (\<lambda>d. name d = n) devs"

text \<open>
  What setting the flag does to one device: \<open>marked a b\<close> when \<open>b\<close> is \<open>a\<close>, possibly
  with \<^verbatim>\<open>protected = True\<close>.
\<close>

definition marked :: "device \<Rightarrow> device \<Rightarrow> bool" where
  "marked a b \<longleftrightarrow> b = a \<or> b = a\<lparr>protected := True\<rparr>"

text \<open>
  \<^verbatim>\<open>InstallerStorage._resolve_protected_device_specs\<close>; \<open>resolve_device\<close> stands for
  \<^verbatim>\<open>devicetree.resolve_device\<close>, which is outside the sources.
\<close>

fun resolve_protected_device_specs :: "(string \<Rightarrow> device option) \<Rightarrow> string list \<Rightarrow>
    storage \<Rightarrow> storage" where
  "resolve_protected_device_specs resolve_device [] st = st"
| "resolve_protected_device_specs resolve_device (spec # specs) st =
     resolve_protected_device_specs resolve_device specs
       (case resolve_device spec of
          None \<Rightarrow> st
        | Some dev \<Rightarrow> st\<lparr>protected_dev_names := protected_dev_names st @ [name dev]\<rparr>)"

text \<open>
  \<^verbatim>\<open>InstallerStorage._find_live_backing_device\<close>. Reading \<^verbatim>\<open>/proc/mounts\<close> and asking
  udev happen outside the model: \<open>live_device_name\<close> is \<open>None\<close> when no mount line names
  \<^verbatim>\<open>/run/initramfs/live\<close>, and otherwise the name the first such line resolves to
  (empty when it resolves to none).
\<close>

definition find_live_backing_device :: "string option \<Rightarrow> storage \<Rightarrow> storage" where
  "find_live_backing_device live_device_name st =
     (case live_device_name of
        None \<Rightarrow> st
      | Some n \<Rightarrow>
          if n \<noteq> [] then
            st\<lparr>protected_dev_names := protected_dev_names st @ [n],
               live_backing_device := Some n\<rparr>
          else st)"

text \<open>\<^verbatim>\<open>InstallerStorage._mark_protected_device\<close>.\<close>

definition mark_protected_device :: "storage \<Rightarrow> device \<Rightarrow> storage" where
  "mark_protected_device st device =
     (if name device \<in> set (protected_dev_names st) then
        (let st1 = st\<lparr>devices := set_protected (name device) (devices st)\<rparr>
         in if Some (name device) = live_backing_device st
            then st1\<lparr>devices := fold set_protected (parents device) (devices st1)\<rparr>
            else st1)
      else st)"

text \<open>
  The loop of \<^verbatim>\<open>reset\<close> over \<^verbatim>\<open>self.protected_dev_names\<close>; a name that is not in the
  tree makes \<^verbatim>\<open>get_device_by_name\<close> return \<^verbatim>\<open>None\<close>, and reading its name raises.
\<close>

fun mark_protected_devices :: "string list \<Rightarrow> storage \<Rightarrow> error + storage" where
  "mark_protected_devices [] st = Inr st"
| "mark_protected_devices (devname # rest) st =
     (case get_device_by_name (devices st) devname of
        None \<Rightarrow> Inl AttributeError
      | Some dev \<Rightarrow> mark_protected_devices rest (mark_protected_device st dev))"

text \<open>The protected device handling of \<^verbatim>\<open>InstallerStorage.reset\<close>.\<close>

definition protected_device_handling :: "(string \<Rightarrow> device option) \<Rightarrow> string option \<Rightarrow>
    storage \<Rightarrow> error + storage" where
  "protected_device_handling resolve_device live_device_name st =
     (let st1 = resolve_protected_device_specs resolve_device
                  (protected_dev_specs (config st)) (st\<lparr>protected_dev_names := []\<rparr>);
          st2 = find_live_backing_device live_device_name st1
      in mark_protected_devices (protected_dev_names st2) st2)"

section \<open>The clearing orchestrator\<close>

text \<open>
  The object behind a device of a list taken earlier: its entry in the tree now, or the
  device as it was when it is no longer in the tree.
\<close>

definition current :: "storage \<Rightarrow> device \<Rightarrow> device" where
  "current st d = (case get_device_by_name (devices st) (name d) of Some d' \<Rightarrow> d' | None \<Rightarrow> d)"

text \<open>The sort key \<^verbatim>\<open>getattr(p.parted_partition, "number", 1)\<close>.\<close>

definition partition_number :: "device \<Rightarrow> nat" where
  "partition_number p = (case number p of Some n \<Rightarrow> n | None \<Rightarrow> 1)"

text \<open>
  The first loop of \<^verbatim>\<open>clear_partitions\<close>. \<open>recursive_remove\<close> is inherited from blivet
  and taken as a parameter.
\<close>

fun clear_partitions_loop :: "(device \<Rightarrow> storage \<Rightarrow> storage) \<Rightarrow> device list \<Rightarrow>
    storage \<Rightarrow> storage" where
  "clear_partitions_loop recursive_remove [] st = st"
| "clear_partitions_loop recursive_remove (part # rest) st =
     (if \<not> should_clear st (current st part) no_kwargs
      then clear_partitions_loop recursive_remove rest st
      else clear_partitions_loop recursive_remove rest
             (recursive_remove (current st part) st))"

text \<open>
  The second loop of \<^verbatim>\<open>clear_partitions\<close>; \<open>initialize_disk\<close> is inherited from blivet
  and taken as a parameter.
\<close>

fun initialize_disks_loop :: "(device \<Rightarrow> storage \<Rightarrow> storage) \<Rightarrow>
    (device \<Rightarrow> storage \<Rightarrow> storage) \<Rightarrow> device list \<Rightarrow> storage \<Rightarrow> storage" where
  "initialize_disks_loop recursive_remove initialize_disk [] st = st"
| "initialize_disks_loop recursive_remove initialize_disk (disk # rest) st =
     (let zerombr = (zero_mbr (config st) \<and> fmt_type (format (current st disk)) = None);
          clear = should_clear st (current st disk) no_kwargs;
          st1 = (if clear then recursive_remove (current st disk) st else st);
          st2 = (if zerombr \<or> clear then
                   (if protected (current st1 disk)
                    then st1\<lparr>warnings := warnings st1 @ [name (current st1 disk)]\<rparr>
                    else initialize_disk (current st1 disk) st1)
                 else st1)
      in initialize_disks_loop recursive_remove initialize_disk rest st2)"

text \<open>
  \<^verbatim>\<open>InstallerStorage.clear_partitions\<close>. \<^verbatim>\<open>sorted(..., reverse=True)\<close> keeps the order of
  partitions with equal keys. \<open>remove_empty_extended_partitions\<close> is the third function
  inherited from blivet; the boot loader's disk list is outside the model.
\<close>

definition clear_partitions :: "(device \<Rightarrow> storage \<Rightarrow> storage) \<Rightarrow> (storage \<Rightarrow> storage) \<Rightarrow>
    (device \<Rightarrow> storage \<Rightarrow> storage) \<Rightarrow> storage \<Rightarrow> storage" where
  "clear_partitions recursive_remove remove_empty_extended_partitions initialize_disk st =
     (let parts = rev (sort_key partition_number (rev (partitions st)));
          st1 = clear_partitions_loop recursive_remove parts st;
          st2 = remove_empty_extended_partitions st1
      in initialize_disks_loop recursive_remove initialize_disk (storage_disks st2) st2)"

text \<open>
  Modelled from the spec: the three operations \<^verbatim>\<open>clear_partitions\<close> inherits from blivet,
  which are not in the sources. \<^verbatim>\<open>remove(device)\<close> "detaches device and cascades to sole
  dependents", the dependents with no other surviving parent; a disk itself stays in the
  graph, only what is on it goes. \<open>sole_dependents k devs rs\<close> adds to the names \<open>rs\<close>, in
  \<open>k\<close> rounds, the devices none of whose parents survives: each parent is in \<open>rs\<close> or no
  longer in the graph.
\<close>

fun sole_dependents :: "nat \<Rightarrow> device list \<Rightarrow> string list \<Rightarrow> string list" where
  "sole_dependents 0 devs rs = rs"
| "sole_dependents (Suc k) devs rs =
     sole_dependents k devs
       (rs @ map name (filter (\<lambda>c. name c \<notin> set rs \<and> parents c \<noteq> [] \<and>
                                  list_all (\<lambda>p. p \<in> set rs \<or> p \<notin> set (map name devs))
                                    (parents c)) devs))"

definition spec_remove :: "device \<Rightarrow> storage \<Rightarrow> storage" where
  "spec_remove dev st =
     (let rs = sole_dependents (length (devices st)) (devices st) [name dev];
          gone = (if is_disk dev then removeAll (name dev) rs else rs)
      in st\<lparr>devices := filter (\<lambda>c. name c \<notin> set gone) (devices st)\<rparr>)"

text \<open>
  Modelled from the spec: "remove any now-empty extended-partition containers (MBR-style
  placeholder with zero remaining logical children)"; the container is the partition
  that is neither primary nor logical.
\<close>

definition spec_remove_empty_extended :: "storage \<Rightarrow> storage" where
  "spec_remove_empty_extended st =
     st\<lparr>devices := filter (\<lambda>p. \<not> (is_partition p \<and> \<not> is_primary p \<and> \<not> is_logical p \<and>
            \<not> list_ex (\<lambda>q. is_partition q \<and> is_logical q \<and> dev_disk q = dev_disk p)
                 (devices st))) (devices st)\<rparr>"

text \<open>
  Modelled from the spec: "mark the disk for fresh disklabel initialization"; the new
  label is not yet on the disk and has all of the disk unallocated.
\<close>

definition spec_initialize_disk :: "device \<Rightarrow> storage \<Rightarrow> storage" where
  "spec_initialize_disk disk st =
     st\<lparr>devices := map (\<lambda>d. if name d = name disk
          then d\<lparr>partitioned := True,
                 format := \<lparr>fmt_type = Some ''disklabel'', fmt_exists = False,
                            linux_native = False, hidden = False,
                            free = Some (dev_size d)\<rparr>\<rparr>
          else d) (devices st)\<rparr>"

section \<open>Example graphs\<close>

text \<open>
  Formats, devices and configurations for the scenarios. \<open>default_config\<close> has the values
  the constructor of \<^verbatim>\<open>StorageDiscoveryConfig\<close> sets; \<open>no_format\<close> is the format of an
  existing device on which nothing was recognised.
\<close>

definition no_format :: device_format where
  "no_format = \<lparr>fmt_type = None, fmt_exists = True, linux_native = False,
                 hidden = False, free = None\<rparr>"

definition default_config :: StorageDiscoveryConfig where
  "default_config = \<lparr>clear_part_type = CLEAR_PARTITIONS_DEFAULT, clear_part_disks = [],
     clear_part_devices = [], initialize_disks = False, protected_dev_specs = [],
     zero_mbr = False, clear_non_existent = False\<rparr>"

definition blank_device :: "string \<Rightarrow> device" where
  "blank_device n = \<lparr>name = n, is_disk = False, is_partition = False, dev_exists = True,
     protected = False, partitioned = False, format = no_format, parents = [], disks = [],
     dev_disk = None, dev_size = 0, is_magic = False, is_primary = False,
     is_logical = False, flag_lvm = False, flag_raid = False, flag_swap = False,
     number = None\<rparr>"

definition disklabel :: "nat \<Rightarrow> device_format" where
  "disklabel f = \<lparr>fmt_type = Some ''disklabel'', fmt_exists = True, linux_native = False,
     hidden = False, free = Some f\<rparr>"

definition ext4 :: "nat \<Rightarrow> device_format" where
  "ext4 f = \<lparr>fmt_type = Some ''ext4'', fmt_exists = True, linux_native = True,
     hidden = False, free = Some f\<rparr>"

definition member_format :: "string \<Rightarrow> device_format" where
  "member_format t = \<lparr>fmt_type = Some t, fmt_exists = True, linux_native = False,
     hidden = False, free = None\<rparr>"

definition whole_disk :: "string \<Rightarrow> device_format \<Rightarrow> nat \<Rightarrow> device" where
  "whole_disk n f s = (blank_device n)\<lparr>is_disk := True,
     partitioned := (fmt_type f = Some ''disklabel''), format := f, disks := [n],
     dev_size := s\<rparr>"

definition primary_partition :: "string \<Rightarrow> string \<Rightarrow> nat \<Rightarrow> device_format \<Rightarrow> nat \<Rightarrow> device" where
  "primary_partition n d k f s = (blank_device n)\<lparr>is_partition := True, format := f,
     parents := [d], disks := [d], dev_disk := Some d, dev_size := s, is_primary := True,
     number := Some k\<rparr>"

definition installer :: "StorageDiscoveryConfig \<Rightarrow> device list \<Rightarrow> storage" where
  "installer cfg devs = \<lparr>config = cfg, devices = devs, protected_dev_names = [],
     live_backing_device = None, warnings = []\<rparr>"

text \<open>Disk \<open>sdc\<close> with the protected partition \<open>sdc1\<close>, mode ALL.\<close>

definition sdc :: device where "sdc = whole_disk ''sdc'' (disklabel 0) 1000"
definition sdc1 :: device where
  "sdc1 = (primary_partition ''sdc1'' ''sdc'' 1 (ext4 10) 1000)\<lparr>protected := True\<rparr>"
definition st_sdc :: storage where
  "st_sdc = installer (default_config\<lparr>clear_part_type := CLEAR_PARTITIONS_ALL\<rparr>) [sdc, sdc1]"

text \<open>The unpartitioned disk \<open>sdb\<close> without format, mode DEFAULT.\<close>

definition sdb :: device where "sdb = whole_disk ''sdb'' no_format 2000"
definition st_sdb :: "bool \<Rightarrow> storage" where
  "st_sdb i = installer (default_config\<lparr>initialize_disks := i\<rparr>) [sdb]"

text \<open>
  Disk \<open>sda\<close> with the Linux-native \<open>sda1\<close> and with \<open>sda2\<close>, which carries the swap flag
  and a format that is not Linux-native; mode LINUX.
\<close>

definition sda :: device where "sda = whole_disk ''sda'' (disklabel 50) 3000"
definition sda1 :: device where "sda1 = primary_partition ''sda1'' ''sda'' 1 (ext4 100) 2000"
definition sda2 :: device where
  "sda2 = (primary_partition ''sda2'' ''sda'' 2 (member_format ''swap'') 950)\<lparr>flag_swap := True\<rparr>"
definition st_sda :: storage where
  "st_sda = installer (default_config\<lparr>clear_part_type := CLEAR_PARTITIONS_LINUX\<rparr>)
     [sda, sda1, sda2]"

text \<open>The array \<open>md0\<close> on the two disks \<open>sde\<close> and \<open>sdf\<close>, mode ALL.\<close>

definition sde :: device where "sde = whole_disk ''sde'' (member_format ''mdmember'') 500"
definition sdf :: device where "sdf = whole_disk ''sdf'' (member_format ''mdmember'') 500"
definition md0 :: device where
  "md0 = (blank_device ''md0'')\<lparr>format := ext4 20, parents := [''sde'', ''sdf''],
     disks := [''sde'', ''sdf''], dev_size := 500\<rparr>"
definition st_md :: "string list \<Rightarrow> storage" where
  "st_md cpd = installer (default_config\<lparr>clear_part_type := CLEAR_PARTITIONS_ALL,
     clear_part_disks := cpd\<rparr>) [sde, sdf, md0]"

text \<open>The disks \<open>sda\<close> and \<open>sdb\<close> together, mode DEFAULT with \<open>initialize_disks\<close> set.\<close>

definition st_free :: storage where
  "st_free = installer (default_config\<lparr>initialize_disks := True\<rparr>) [sda, sda1, sda2, sdb]"

text \<open>
  A live image on the logical volume \<open>vg0-live\<close> of the volume group \<open>vg0\<close>, whose
  physical volume is the partition \<open>sdg2\<close> of disk \<open>sdg\<close>.
\<close>

definition sdg :: device where "sdg = whole_disk ''sdg'' (disklabel 0) 4000"
definition sdg2 :: device where
  "sdg2 = (primary_partition ''sdg2'' ''sdg'' 2 (member_format ''lvmpv'') 4000)\<lparr>flag_lvm := True\<rparr>"
definition vg0 :: device where
  "vg0 = (blank_device ''vg0'')\<lparr>parents := [''sdg2''], disks := [''sdg''], dev_size := 4000\<rparr>"
definition lv_live :: device where
  "lv_live = (blank_device ''vg0-live'')\<lparr>format := ext4 0, parents := [''vg0''],
     disks := [''sdg''], dev_size := 4000\<rparr>"
definition st_live :: storage where
  "st_live = installer default_config [sdg, sdg2, vg0, lv_live]"


text \<open>
  Disk \<open>sda\<close> with its two partitions under mode ALL, the same disk after clearing (no
  partitions, a fresh label), and the first graph with \<open>clear_non_existent\<close> set.
\<close>

definition st_all :: storage where
  "st_all = installer (default_config\<lparr>clear_part_type := CLEAR_PARTITIONS_ALL\<rparr>)
     [sda, sda1, sda2]"
definition st_cleared :: storage where
  "st_cleared = installer (default_config\<lparr>clear_part_type := CLEAR_PARTITIONS_ALL\<rparr>)
     [sda\<lparr>partitioned := True,
          format := \<lparr>fmt_type = Some ''disklabel'', fmt_exists = False, linux_native = False,
                     hidden = False, free = Some 3000\<rparr>\<rparr>]"

definition st_all_planned :: storage where
  "st_all_planned = st_all\<lparr>config := (config st_all)\<lparr>clear_non_existent := True\<rparr>\<rparr>"

section \<open>Theorems\<close>

subsection \<open>Evaluation of the examples\<close>

lemmas format_defs = no_format_def disklabel_def ext4_def member_format_def
lemmas device_defs = blank_device_def whole_disk_def primary_partition_def
lemmas storage_defs = installer_def default_config_def no_kwargs_def
lemmas effective_defs = effective_type_def effective_disks_def effective_devices_def
lemmas graph_defs = get_dependent_devices_def ancestors_def children_def empty_device_def

subsection \<open>The protection filter\<close>

text \<open>
  C1. Whenever the device is protected, or some device among its dependents (the
  descendants the Device Graph reports for it) is protected, \<open>should_clear\<close> is false,
  whatever the clear mode, the keywords and the rest of the configuration are.
\<close>

theorem should_clear_protected:
  "protected d \<or> (\<exists>x \<in> set (get_dependent_devices (devices st) d). protected x)
   \<Longrightarrow> \<not> should_clear st d kw"
  unfolding should_clear_def by (simp add: Let_def list_ex_iff)

lemma sdc_dependents: "get_dependent_devices (devices st_sdc) sdc = [sdc1]"
  by (simp add: st_sdc_def sdc_def sdc1_def format_defs device_defs storage_defs graph_defs)

theorem should_clear_protected_witness:
  "protected sdc1 \<and> sdc1 \<in> set (get_dependent_devices (devices st_sdc) sdc)
   \<and> \<not> should_clear st_sdc sdc1 no_kwargs \<and> \<not> should_clear st_sdc sdc no_kwargs"
proof -
  have p: "protected sdc1" by (simp add: sdc1_def)
  have m: "sdc1 \<in> set (get_dependent_devices (devices st_sdc) sdc)"
    by (simp add: sdc_dependents)
  from p m show ?thesis
    using should_clear_protected [where d = sdc1 and st = st_sdc and kw = no_kwargs]
      should_clear_protected [where d = sdc and st = st_sdc and kw = no_kwargs]
    by blast
qed

subsection \<open>The disk scope filter\<close>

lemma disk_scope_rejects_iff:
  "disk_scope_rejects cpd ds \<longleftrightarrow> cpd \<noteq> [] \<and> (\<exists>x \<in> set ds. x \<notin> set cpd)"
  by (induction ds) auto

lemma st_md_scope:
  "effective_disks (st_md cpd) no_kwargs = cpd"
  by (simp add: effective_disks_def st_md_def storage_defs)

lemma md0_disks: "disks md0 = [''sde'', ''sdf'']"
  by (simp add: md0_def device_defs)

text \<open>
  C2, as stated, fails. The array \<open>md0\<close> lies on the disks \<open>sde\<close> and \<open>sdf\<close>; with
  \<open>clear_part_disks = [sde]\<close> one of its disks is in the set, yet the loop over
  \<^verbatim>\<open>device.disks\<close> returns false at \<open>sdf\<close>. With both disks in the set the same device is
  cleared, so the rejection is the disk scope filter's.
\<close>

theorem disk_scope_counterexample:
  "effective_disks (st_md [''sde'']) no_kwargs = [''sde'']
   \<and> ''sde'' \<in> set (disks md0)
   \<and> disk_scope_rejects (effective_disks (st_md [''sde'']) no_kwargs) (disks md0)
   \<and> \<not> should_clear (st_md [''sde'']) md0 no_kwargs
   \<and> should_clear (st_md [''sde'', ''sdf'']) md0 no_kwargs"
  by (simp add: st_md_scope md0_disks)
    (simp add: st_md_def sde_def sdf_def md0_def format_defs device_defs storage_defs
      effective_defs graph_defs should_clear_def)

text \<open>
  C2, amended. The disk scope filter rejects a device exactly when \<open>clear_part_disks\<close> is
  non-empty and at least one of the device's disks is not in it; a rejection there makes
  \<open>should_clear\<close> false. So a device passes the filter when all of its disks are in the
  set (also when it has no disk), and always when the set is empty.
\<close>

theorem disk_scope_filter:
  "(disk_scope_rejects (effective_disks st kw) (disks d) \<longleftrightarrow>
      effective_disks st kw \<noteq> [] \<and> (\<exists>x \<in> set (disks d). x \<notin> set (effective_disks st kw)))
   \<and> (disk_scope_rejects (effective_disks st kw) (disks d) \<longrightarrow> \<not> should_clear st d kw)"
  by (simp add: disk_scope_rejects_iff should_clear_def Let_def)

theorem disk_scope_filter_witness:
  "disk_scope_rejects (effective_disks (st_md [''sde'']) no_kwargs) (disks md0)
   \<and> \<not> should_clear (st_md [''sde'']) md0 no_kwargs
   \<and> \<not> disk_scope_rejects (effective_disks (st_md [''sde'', ''sdf'']) no_kwargs) (disks md0)
   \<and> \<not> disk_scope_rejects (effective_disks (st_md []) no_kwargs) (disks md0)"
proof -
  have a: "\<exists>x \<in> set (disks md0). x \<notin> set [''sde'']" by (simp add: md0_disks)
  have b: "\<not> (\<exists>x \<in> set (disks md0). x \<notin> set [''sde'', ''sdf''])" by (simp add: md0_disks)
  have c: "[''sde''] \<noteq> ([]::string list)" by simp
  show ?thesis
    using a b c
      disk_scope_filter [where st = "st_md [''sde'']" and kw = no_kwargs and d = md0]
      disk_scope_filter [where st = "st_md [''sde'', ''sdf'']" and kw = no_kwargs and d = md0]
      disk_scope_filter [where st = "st_md []" and kw = no_kwargs and d = md0]
    unfolding st_md_scope by blast
qed

subsection \<open>Modes NONE and DEFAULT\<close>

lemma empty_device_iff:
  "empty_device st d \<longleftrightarrow>
     (if partitioned d then \<forall>p \<in> set (children (devices st) d). is_magic p
      else fmt_type (format d) = None)"
  by (simp add: empty_device_def list_all_iff)

lemma should_clear_none_default_only:
  assumes "effective_type st kw = CLEAR_PARTITIONS_NONE
           \<or> effective_type st kw = CLEAR_PARTITIONS_DEFAULT"
    and "should_clear st d kw"
  shows "is_disk d \<and> initialize_disks (config st) \<and> empty_device st d"
proof (rule ccontr)
  assume n: "\<not> (is_disk d \<and> initialize_disks (config st) \<and> empty_device st d)"
  from assms(1) n have "\<not> should_clear st d kw"
    unfolding should_clear_def Let_def by presburger
  with assms(2) show False by simp
qed

text \<open>
  C3. Under mode NONE or DEFAULT, \<open>should_clear\<close> is true only for a whole disk, with
  \<open>initialize_disks\<close> set, that is empty; a partitioned device is empty iff all its
  children are magic partitions, an unpartitioned one iff it has no recognised format.
  For an unpartitioned disk without format that the other filters let through (in scope,
  its format record existing or \<open>clear_non_existent\<close> set, not hidden, neither it nor a
  dependent protected), \<open>should_clear\<close> is exactly \<open>initialize_disks\<close>.
\<close>

theorem should_clear_none_default:
  assumes "effective_type st kw = CLEAR_PARTITIONS_NONE
           \<or> effective_type st kw = CLEAR_PARTITIONS_DEFAULT"
  shows "(should_clear st d kw \<longrightarrow>
            is_disk d \<and> initialize_disks (config st) \<and> empty_device st d)
     \<and> (empty_device st d \<longleftrightarrow>
          (if partitioned d then \<forall>p \<in> set (children (devices st) d). is_magic p
           else fmt_type (format d) = None))
     \<and> (is_disk d \<and> \<not> is_partition d \<and> \<not> partitioned d \<and> fmt_type (format d) = None
        \<and> \<not> disk_scope_rejects (effective_disks st kw) (disks d)
        \<and> (clear_non_existent (config st) \<or> fmt_exists (format d))
        \<and> \<not> hidden (format d) \<and> \<not> protected d
        \<and> \<not> (\<exists>x \<in> set (get_dependent_devices (devices st) d). protected x)
        \<longrightarrow> should_clear st d kw = initialize_disks (config st))"
proof (intro conjI impI)
  assume "should_clear st d kw"
  with assms show "is_disk d" "initialize_disks (config st)" "empty_device st d"
    using should_clear_none_default_only by blast+
next
  show "empty_device st d \<longleftrightarrow>
          (if partitioned d then \<forall>p \<in> set (children (devices st) d). is_magic p
           else fmt_type (format d) = None)"
    by (rule empty_device_iff)
next
  assume a: "is_disk d \<and> \<not> is_partition d \<and> \<not> partitioned d \<and> fmt_type (format d) = None
        \<and> \<not> disk_scope_rejects (effective_disks st kw) (disks d)
        \<and> (clear_non_existent (config st) \<or> fmt_exists (format d))
        \<and> \<not> hidden (format d) \<and> \<not> protected d
        \<and> \<not> (\<exists>x \<in> set (get_dependent_devices (devices st) d). protected x)"
  then have e: "empty_device st d" by (simp add: empty_device_def)
  from a have l: "\<not> list_ex protected (get_dependent_devices (devices st) d)"
    by (simp add: list_ex_iff)
  from assms a e l show "should_clear st d kw = initialize_disks (config st)"
    unfolding should_clear_def Let_def by auto
qed

theorem should_clear_none_default_witness:
  "effective_type (st_sdb True) no_kwargs = CLEAR_PARTITIONS_DEFAULT
   \<and> effective_type (st_sdb False) no_kwargs = CLEAR_PARTITIONS_DEFAULT
   \<and> is_disk sdb \<and> \<not> partitioned sdb \<and> fmt_type (format sdb) = None
   \<and> should_clear (st_sdb True) sdb no_kwargs
   \<and> \<not> should_clear (st_sdb False) sdb no_kwargs"
proof -
  have t: "effective_type (st_sdb i) no_kwargs = CLEAR_PARTITIONS_DEFAULT" for i
    by (simp add: effective_type_def st_sdb_def storage_defs)
  have a: "is_disk sdb \<and> \<not> is_partition sdb \<and> \<not> partitioned sdb
      \<and> fmt_type (format sdb) = None
      \<and> \<not> disk_scope_rejects (effective_disks (st_sdb i) no_kwargs) (disks sdb)
      \<and> (clear_non_existent (config (st_sdb i)) \<or> fmt_exists (format sdb))
      \<and> \<not> hidden (format sdb) \<and> \<not> protected sdb
      \<and> \<not> (\<exists>x \<in> set (get_dependent_devices (devices (st_sdb i)) sdb). protected x)" for i
    by (simp add: effective_disks_def st_sdb_def sdb_def format_defs device_defs
        storage_defs graph_defs)
  have i: "initialize_disks (config (st_sdb True))" "\<not> initialize_disks (config (st_sdb False))"
    by (simp_all add: st_sdb_def storage_defs)
  note r = should_clear_none_default [where kw = no_kwargs and d = sdb, OF disjI2, OF t,
      THEN conjunct2, THEN conjunct2, THEN mp, OF a]
  from r [of True] r [of False] i t a [of True] show ?thesis by blast
qed

subsection \<open>The decision as a conjunction of its filters\<close>

lemma if_False_else: "(if c then False else r) \<longleftrightarrow> \<not> c \<and> r"
  by simp

lemma should_clear_iff:
  "should_clear st d kw \<longleftrightarrow>
     \<not> disk_scope_rejects (effective_disks st kw) (disks d)
   \<and> \<not> (\<not> clear_non_existent (config st) \<and>
          ((is_disk d \<and> \<not> fmt_exists (format d)) \<or> (\<not> is_disk d \<and> \<not> dev_exists d)))
   \<and> \<not> ((effective_type st kw = CLEAR_PARTITIONS_NONE
           \<or> effective_type st kw = CLEAR_PARTITIONS_DEFAULT)
          \<and> (\<not> initialize_disks (config st) \<or> \<not> is_disk d))
   \<and> \<not> ((effective_type st kw = CLEAR_PARTITIONS_NONE
           \<or> effective_type st kw = CLEAR_PARTITIONS_DEFAULT)
          \<and> \<not> empty_device st d)
   \<and> \<not> (is_partition d \<and> is_magic d)
   \<and> \<not> (is_partition d \<and> \<not> is_primary d \<and> \<not> is_logical d)
   \<and> \<not> (is_partition d \<and> effective_type st kw = CLEAR_PARTITIONS_LINUX
          \<and> \<not> linux_native (format d) \<and> \<not> flag_lvm d \<and> \<not> flag_raid d \<and> \<not> flag_swap d)
   \<and> \<not> (\<not> is_partition d \<and> is_disk d \<and> partitioned d
          \<and> effective_type st kw \<noteq> CLEAR_PARTITIONS_ALL \<and> \<not> empty_device st d)
   \<and> \<not> (\<not> is_partition d \<and> is_disk d \<and> hidden (format d))
   \<and> \<not> (\<not> is_partition d \<and> is_disk d \<and> effective_type st kw = CLEAR_PARTITIONS_LINUX
          \<and> \<not> ((initialize_disks (config st) \<and> empty_device st d)
               \<or> (\<not> partitioned d \<and> linux_native (format d))))
   \<and> \<not> (protected d \<or> (\<exists>x \<in> set (get_dependent_devices (devices st) d). protected x))
   \<and> \<not> (effective_type st kw = CLEAR_PARTITIONS_LIST \<and> name d \<notin> set (effective_devices st kw))"
  unfolding should_clear_def Let_def if_False_else list_ex_iff
  by (simp only: simp_thms)

subsection \<open>Mode LINUX\<close>

lemma st_sda_dependents:
  "get_dependent_devices (devices st_sda) sda1 = []"
  "get_dependent_devices (devices st_sda) sda2 = []"
  by (simp_all add: st_sda_def sda_def sda1_def sda2_def format_defs device_defs
      storage_defs graph_defs)

lemma st_sda_effective:
  "effective_type st_sda no_kwargs = CLEAR_PARTITIONS_LINUX"
  "effective_disks st_sda no_kwargs = []"
  by (simp_all add: st_sda_def effective_defs storage_defs)

lemma sda_not_cleared: "\<not> should_clear st_sda sda no_kwargs"
proof -
  have "\<not> empty_device st_sda sda"
    by (simp add: st_sda_def sda_def sda1_def sda2_def format_defs device_defs
        storage_defs graph_defs)
  moreover have "\<not> is_partition sda \<and> is_disk sda \<and> partitioned sda"
    by (simp add: sda_def format_defs device_defs)
  ultimately show ?thesis
    by (simp add: should_clear_iff st_sda_effective)
qed

lemma should_clear_linux_partition_iff:
  assumes "effective_type st kw = CLEAR_PARTITIONS_LINUX" "is_partition p"
    "\<not> is_disk p" "dev_exists p \<or> clear_non_existent (config st)"
    "\<not> disk_scope_rejects (effective_disks st kw) (disks p)"
    "\<not> protected p" "\<not> (\<exists>x \<in> set (get_dependent_devices (devices st) p). protected x)"
    "\<not> is_magic p" "is_primary p \<or> is_logical p"
  shows "should_clear st p kw \<longleftrightarrow>
           linux_native (format p) \<or> flag_lvm p \<or> flag_raid p \<or> flag_swap p"
  using assms by (simp add: should_clear_iff) blast

lemma sda_partitions_cleared:
  "should_clear st_sda sda1 no_kwargs" "should_clear st_sda sda2 no_kwargs"
proof -
  have a: "is_partition sda1 \<and> \<not> is_disk sda1 \<and> dev_exists sda1 \<and> \<not> protected sda1
      \<and> \<not> is_magic sda1 \<and> is_primary sda1 \<and> linux_native (format sda1)
      \<and> disks sda1 = [''sda'']"
    by (simp add: sda1_def format_defs device_defs)
  have b: "is_partition sda2 \<and> \<not> is_disk sda2 \<and> dev_exists sda2 \<and> \<not> protected sda2
      \<and> \<not> is_magic sda2 \<and> is_primary sda2 \<and> flag_swap sda2
      \<and> disks sda2 = [''sda'']"
    by (simp add: sda2_def format_defs device_defs)
  show "should_clear st_sda sda1 no_kwargs"
    using a should_clear_linux_partition_iff [where st = st_sda and kw = no_kwargs and p = sda1]
    by (simp add: st_sda_effective st_sda_dependents)
  show "should_clear st_sda sda2 no_kwargs"
    using b should_clear_linux_partition_iff [where st = st_sda and kw = no_kwargs and p = sda2]
    by (simp add: st_sda_effective st_sda_dependents)
qed

text \<open>
  C4. Under mode LINUX a partition that is neither Linux-native nor flagged LVM, RAID or
  swap is never cleared; for an existing, unprotected, non-magic primary or logical
  partition in scope (without protected dependents) \<open>should_clear\<close> is true exactly when
  one of the four holds. In the scenario of disk \<open>sda\<close> with the Linux-native \<open>sda1\<close> and
  the swap-flagged \<open>sda2\<close>, mode LINUX and an empty \<open>clear_part_disks\<close>, both partitions
  are cleared and the disk is not.
\<close>

theorem should_clear_linux_partition:
  "(effective_type st kw = CLEAR_PARTITIONS_LINUX \<and> is_partition p
      \<and> \<not> (linux_native (format p) \<or> flag_lvm p \<or> flag_raid p \<or> flag_swap p)
      \<longrightarrow> \<not> should_clear st p kw)
   \<and> (effective_type st kw = CLEAR_PARTITIONS_LINUX \<and> is_partition p
      \<and> \<not> is_disk p \<and> (dev_exists p \<or> clear_non_existent (config st))
      \<and> \<not> disk_scope_rejects (effective_disks st kw) (disks p)
      \<and> \<not> protected p
      \<and> \<not> (\<exists>x \<in> set (get_dependent_devices (devices st) p). protected x)
      \<and> \<not> is_magic p \<and> (is_primary p \<or> is_logical p)
      \<longrightarrow> should_clear st p kw =
            (linux_native (format p) \<or> flag_lvm p \<or> flag_raid p \<or> flag_swap p))
   \<and> clear_part_type (config st_sda) = CLEAR_PARTITIONS_LINUX
   \<and> clear_part_disks (config st_sda) = []
   \<and> should_clear st_sda sda1 no_kwargs
   \<and> should_clear st_sda sda2 no_kwargs
   \<and> \<not> should_clear st_sda sda no_kwargs"
proof (intro conjI impI)
  assume "effective_type st kw = CLEAR_PARTITIONS_LINUX \<and> is_partition p
      \<and> \<not> (linux_native (format p) \<or> flag_lvm p \<or> flag_raid p \<or> flag_swap p)"
  then show "\<not> should_clear st p kw"
    by (simp add: should_clear_iff)
next
  assume "effective_type st kw = CLEAR_PARTITIONS_LINUX \<and> is_partition p
      \<and> \<not> is_disk p \<and> (dev_exists p \<or> clear_non_existent (config st))
      \<and> \<not> disk_scope_rejects (effective_disks st kw) (disks p)
      \<and> \<not> protected p
      \<and> \<not> (\<exists>x \<in> set (get_dependent_devices (devices st) p). protected x)
      \<and> \<not> is_magic p \<and> (is_primary p \<or> is_logical p)"
  then show "should_clear st p kw =
            (linux_native (format p) \<or> flag_lvm p \<or> flag_raid p \<or> flag_swap p)"
    using should_clear_linux_partition_iff [of st kw p] by blast
next
  show "clear_part_type (config st_sda) = CLEAR_PARTITIONS_LINUX"
    "clear_part_disks (config st_sda) = []"
    by (simp_all add: st_sda_def storage_defs)
  show "should_clear st_sda sda1 no_kwargs" "should_clear st_sda sda2 no_kwargs"
    by (rule sda_partitions_cleared)+
  show "\<not> should_clear st_sda sda no_kwargs" by (rule sda_not_cleared)
qed

theorem should_clear_linux_partition_witness:
  "effective_type st_sda no_kwargs = CLEAR_PARTITIONS_LINUX \<and> is_partition sda1
   \<and> is_primary sda1 \<and> linux_native (format sda1) \<and> should_clear st_sda sda1 no_kwargs
   \<and> is_partition sda2 \<and> \<not> linux_native (format sda2) \<and> flag_swap sda2
   \<and> should_clear st_sda sda2 no_kwargs
   \<and> \<not> should_clear st_sda (sda2\<lparr>flag_swap := False\<rparr>) no_kwargs"
proof -
  have a: "is_partition sda1 \<and> is_primary sda1 \<and> linux_native (format sda1)"
    by (simp add: sda1_def format_defs device_defs)
  have b: "is_partition sda2 \<and> \<not> linux_native (format sda2) \<and> flag_swap sda2
      \<and> \<not> flag_lvm sda2 \<and> \<not> flag_raid sda2"
    by (simp add: sda2_def format_defs device_defs)
  note t = should_clear_linux_partition [where st = st_sda and kw = no_kwargs]
  from a b st_sda_effective(1) t [where p = sda1] t [where p = "sda2\<lparr>flag_swap := False\<rparr>"]
  show ?thesis by simp
qed

subsection \<open>Mode monotonicity\<close>

lemma empty_device_devices:
  "devices st' = devices st \<Longrightarrow> empty_device st' d = empty_device st d"
  by (simp add: empty_device_def)

lemma should_clear_all_superset:
  assumes m: "effective_type st kw = CLEAR_PARTITIONS_NONE
       \<or> effective_type st kw = CLEAR_PARTITIONS_DEFAULT
       \<or> effective_type st kw = CLEAR_PARTITIONS_LINUX"
    and a: "effective_type st' kw' = CLEAR_PARTITIONS_ALL"
    and same: "effective_disks st' kw' = effective_disks st kw" "devices st' = devices st"
      "clear_non_existent (config st') = clear_non_existent (config st)"
    and c: "should_clear st d kw"
  shows "should_clear st' d kw'"
proof (rule ccontr)
  assume n: "\<not> should_clear st' d kw'"
  have e: "empty_device st' d = empty_device st d"
    using same(2) by (rule empty_device_devices)
  from c have "should_clear st' d kw'"
    unfolding should_clear_iff [of st'] should_clear_iff [of st] e same a
    using m by auto
  with n show False by simp
qed

text \<open>
  C5. For a fixed device and configurations that differ only in the clear mode, whether
  the mode is set in the configuration or passed as the keyword: when \<open>should_clear\<close> is
  true under NONE, DEFAULT or LINUX, it is true under ALL.
\<close>

theorem should_clear_mode_monotone:
  assumes "m = CLEAR_PARTITIONS_NONE \<or> m = CLEAR_PARTITIONS_DEFAULT
           \<or> m = CLEAR_PARTITIONS_LINUX"
  shows "(kw_clear_part_type kw = None
          \<and> should_clear (st\<lparr>config := (config st)\<lparr>clear_part_type := m\<rparr>\<rparr>) d kw
          \<longrightarrow> should_clear
                (st\<lparr>config := (config st)\<lparr>clear_part_type := CLEAR_PARTITIONS_ALL\<rparr>\<rparr>) d kw)
     \<and> (should_clear st d (kw\<lparr>kw_clear_part_type := Some m\<rparr>)
          \<longrightarrow> should_clear st d (kw\<lparr>kw_clear_part_type := Some CLEAR_PARTITIONS_ALL\<rparr>))"
proof (intro conjI impI)
  assume h: "kw_clear_part_type kw = None
      \<and> should_clear (st\<lparr>config := (config st)\<lparr>clear_part_type := m\<rparr>\<rparr>) d kw"
  show "should_clear (st\<lparr>config := (config st)\<lparr>clear_part_type := CLEAR_PARTITIONS_ALL\<rparr>\<rparr>) d kw"
  proof (rule should_clear_all_superset
      [where st = "st\<lparr>config := (config st)\<lparr>clear_part_type := m\<rparr>\<rparr>" and kw = kw])
    show "effective_type (st\<lparr>config := (config st)\<lparr>clear_part_type := m\<rparr>\<rparr>) kw
            = CLEAR_PARTITIONS_NONE
        \<or> effective_type (st\<lparr>config := (config st)\<lparr>clear_part_type := m\<rparr>\<rparr>) kw
            = CLEAR_PARTITIONS_DEFAULT
        \<or> effective_type (st\<lparr>config := (config st)\<lparr>clear_part_type := m\<rparr>\<rparr>) kw
            = CLEAR_PARTITIONS_LINUX"
      using assms h by (simp add: effective_type_def)
  qed (use h in \<open>simp_all add: effective_defs split: option.splits\<close>)
next
  assume h: "should_clear st d (kw\<lparr>kw_clear_part_type := Some m\<rparr>)"
  show "should_clear st d (kw\<lparr>kw_clear_part_type := Some CLEAR_PARTITIONS_ALL\<rparr>)"
  proof (rule should_clear_all_superset
      [where st = st and kw = "kw\<lparr>kw_clear_part_type := Some m\<rparr>"])
    show "effective_type st (kw\<lparr>kw_clear_part_type := Some m\<rparr>) = CLEAR_PARTITIONS_NONE
        \<or> effective_type st (kw\<lparr>kw_clear_part_type := Some m\<rparr>) = CLEAR_PARTITIONS_DEFAULT
        \<or> effective_type st (kw\<lparr>kw_clear_part_type := Some m\<rparr>) = CLEAR_PARTITIONS_LINUX"
      using assms by (simp add: effective_type_def)
  qed (use h in \<open>simp_all add: effective_defs split: option.splits\<close>)
qed

theorem should_clear_mode_monotone_witness:
  "should_clear (st_sda\<lparr>config := (config st_sda)\<lparr>clear_part_type := CLEAR_PARTITIONS_LINUX\<rparr>\<rparr>)
     sda1 no_kwargs
   \<and> should_clear (st_sda\<lparr>config := (config st_sda)\<lparr>clear_part_type := CLEAR_PARTITIONS_ALL\<rparr>\<rparr>)
     sda1 no_kwargs"
proof -
  have e: "st_sda\<lparr>config := (config st_sda)\<lparr>clear_part_type := CLEAR_PARTITIONS_LINUX\<rparr>\<rparr>
      = st_sda"
    by (simp add: st_sda_def storage_defs)
  have k: "kw_clear_part_type no_kwargs = None" by (simp add: no_kwargs_def)
  from e k sda_partitions_cleared(1)
    should_clear_mode_monotone [where m = CLEAR_PARTITIONS_LINUX and kw = no_kwargs
      and st = st_sda and d = sda1]
  show ?thesis by simp
qed

subsection \<open>Free space\<close>

lemma disk_free_space_cleared:
  "should_clear st d (free_space_kwargs cpt d) \<Longrightarrow>
     disk_free_space st cpt d = Inr (dev_size d, 0)"
  by (simp add: disk_free_space_def)

lemma disk_free_space_returns:
  "partitioned d \<longrightarrow> free (format d) \<noteq> None \<Longrightarrow> \<exists>v. disk_free_space st cpt d = Inr v"
  by (auto simp add: disk_free_space_def split: option.splits)

lemma free_space_loop_returns:
  "\<forall>x \<in> set ds. \<exists>v. disk_free_space st cpt x = Inr v \<Longrightarrow>
     \<exists>m. free_space_loop st cpt ds fr = Inr m"
proof (induction ds arbitrary: fr)
  case Nil
  then show ?case by simp
next
  case (Cons x xs)
  then obtain v where "disk_free_space st cpt x = Inr v" by auto
  with Cons show ?case by simp
qed

lemma free_space_loop_other:
  "free_space_loop st cpt ds fr = Inr m \<Longrightarrow> n \<notin> name ` set ds \<Longrightarrow> m n = fr n"
proof (induction ds arbitrary: fr)
  case Nil
  then show ?case by simp
next
  case (Cons x xs)
  then show ?case by (auto split: sum.splits)
qed

lemma free_space_loop_entry:
  "free_space_loop st cpt ds fr = Inr m \<Longrightarrow> \<exists>x \<in> set ds. name x = n \<Longrightarrow>
     \<forall>x \<in> set ds. name x = n \<longrightarrow> disk_free_space st cpt x = Inr v \<Longrightarrow> m n = Some v"
proof (induction ds arbitrary: fr)
  case Nil
  then show ?case by simp
next
  case (Cons x xs)
  from Cons.prems(1) obtain w where w: "disk_free_space st cpt x = Inr w"
    and l: "free_space_loop st cpt xs (fr(name x \<mapsto> w)) = Inr m"
    by (auto split: sum.splits)
  show ?case
  proof (cases "\<exists>y \<in> set xs. name y = n")
    case True
    moreover from Cons.prems(3)
    have "\<forall>y \<in> set xs. name y = n \<longrightarrow> disk_free_space st cpt y = Inr v" by simp
    ultimately show ?thesis using Cons.IH [OF l] by blast
  next
    case False
    with Cons.prems(2) have x: "name x = n" by auto
    with Cons.prems(3) w have "w = v" by simp
    moreover from False have "n \<notin> name ` set xs" by auto
    ultimately show ?thesis using free_space_loop_other [OF l] x by simp
  qed
qed

lemma get_free_space_entry:
  assumes ds: "ds = (case disks_arg of None \<Rightarrow> storage_disks st | Some l \<Rightarrow> l)"
    and cpt: "cpt = (case cpt_arg of None \<Rightarrow> clear_part_type (config st) | Some t \<Rightarrow> t)"
    and d: "d \<in> set ds" "\<forall>x \<in> set ds. name x = name d \<longrightarrow> x = d"
    and label: "\<forall>x \<in> set ds. partitioned x \<longrightarrow> free (format x) \<noteq> None"
    and v: "disk_free_space st cpt d = Inr v"
  shows "\<exists>m. get_free_space st disks_arg cpt_arg = Inr m \<and> m (name d) = Some v"
proof -
  have g: "get_free_space st disks_arg cpt_arg = free_space_loop st cpt ds Map.empty"
    by (simp add: get_free_space_def ds cpt)
  from label have "\<forall>x \<in> set ds. \<exists>v. disk_free_space st cpt x = Inr v"
    using disk_free_space_returns by blast
  then obtain m where m: "free_space_loop st cpt ds Map.empty = Inr m"
    using free_space_loop_returns by blast
  have "m (name d) = Some v"
  proof (rule free_space_loop_entry [OF m])
    show "\<exists>x \<in> set ds. name x = name d" using d(1) by blast
    show "\<forall>x \<in> set ds. name x = name d \<longrightarrow> disk_free_space st cpt x = Inr v"
      using d(2) v by blast
  qed
  with g m show ?thesis by simp
qed

text \<open>
  C7. Let every partitioned candidate disk have a label that reports its free space (so
  that no read of \<^verbatim>\<open>disk.format.free\<close> raises). Then \<open>get_free_space\<close> returns a report,
  and for every candidate disk that \<open>should_clear\<close> approves (asked with the mode in force
  and the disk itself as the only disk in scope) the entry under its name is
  \<open>(disk.size, 0)\<close>, no other candidate carrying that name.
\<close>

theorem get_free_space_cleared_disk:
  assumes "ds = (case disks_arg of None \<Rightarrow> storage_disks st | Some l \<Rightarrow> l)"
    and "cpt = (case cpt_arg of None \<Rightarrow> clear_part_type (config st) | Some t \<Rightarrow> t)"
    and "d \<in> set ds" and "\<forall>x \<in> set ds. name x = name d \<longrightarrow> x = d"
    and "\<forall>x \<in> set ds. partitioned x \<longrightarrow> free (format x) \<noteq> None"
    and "should_clear st d (free_space_kwargs cpt d)"
  shows "\<exists>m. get_free_space st disks_arg cpt_arg = Inr m
             \<and> m (name d) = Some (dev_size d, 0)"
  using assms(1-5) disk_free_space_cleared [OF assms(6)] by (rule get_free_space_entry)

lemma st_free_disks: "storage_disks st_free = [sda, sdb]"
  by (simp add: storage_disks_def st_free_def sda_def sda1_def sda2_def sdb_def
      device_defs storage_defs)

lemma st_free_partitions: "partitions st_free = [sda1, sda2]"
  by (simp add: partitions_def st_free_def sda_def sda1_def sda2_def sdb_def
      device_defs storage_defs)

lemma st_free_names: "name sda = ''sda''" "name sdb = ''sdb''" "name sda1 = ''sda1''"
  "name sda2 = ''sda2''"
  by (simp_all add: sda_def sdb_def sda1_def sda2_def device_defs)

lemma st_free_labels:
  "\<forall>x \<in> set [sda, sdb]. partitioned x \<longrightarrow> free (format x) \<noteq> None"
  by (simp add: sda_def sdb_def device_defs format_defs)

lemma st_free_type: "clear_part_type (config st_free) = CLEAR_PARTITIONS_DEFAULT"
  by (simp add: st_free_def storage_defs)

lemma st_free_sdb: "should_clear st_free sdb (free_space_kwargs CLEAR_PARTITIONS_DEFAULT sdb)"
  by (simp add: should_clear_iff effective_defs free_space_kwargs_def graph_defs
      st_free_def sda_def sda1_def sda2_def sdb_def device_defs format_defs storage_defs)

theorem get_free_space_cleared_disk_witness:
  "sdb \<in> set (storage_disks st_free)
   \<and> should_clear st_free sdb (free_space_kwargs (clear_part_type (config st_free)) sdb)
   \<and> (\<exists>m. get_free_space st_free None None = Inr m \<and> m ''sdb'' = Some (2000, 0))"
proof -
  have s: "dev_size sdb = 2000" by (simp add: sdb_def device_defs)
  have "\<exists>m. get_free_space st_free None None = Inr m
             \<and> m (name sdb) = Some (dev_size sdb, 0)"
  proof (rule get_free_space_cleared_disk [where ds = "[sda, sdb]"
        and cpt = CLEAR_PARTITIONS_DEFAULT])
    show "[sda, sdb] = (case None of None \<Rightarrow> storage_disks st_free | Some l \<Rightarrow> l)"
      by (simp add: st_free_disks)
    show "CLEAR_PARTITIONS_DEFAULT =
        (case None of None \<Rightarrow> clear_part_type (config st_free) | Some t \<Rightarrow> t)"
      by (simp add: st_free_type)
    show "sdb \<in> set [sda, sdb]" by simp
    show "\<forall>x \<in> set [sda, sdb]. name x = name sdb \<longrightarrow> x = sdb"
      by (simp add: st_free_names)
    show "\<forall>x \<in> set [sda, sdb]. partitioned x \<longrightarrow> free (format x) \<noteq> None"
      by (rule st_free_labels)
    show "should_clear st_free sdb (free_space_kwargs CLEAR_PARTITIONS_DEFAULT sdb)"
      by (rule st_free_sdb)
  qed
  with s st_free_sdb show ?thesis by (simp add: st_free_disks st_free_type st_free_names)
qed

lemma partitions_free_kept:
  "\<forall>p \<in> set ps. \<not> should_clear st p (free_space_kwargs cpt d) \<Longrightarrow>
     partitions_free st cpt d ps (a, b) =
       (a, b + sum_list (map (\<lambda>p. case free (format p) of Some f \<Rightarrow> f | None \<Rightarrow> 0) ps))"
proof (induction ps arbitrary: a b)
  case Nil
  then show ?case by simp
next
  case (Cons p ps)
  then show ?case by (cases "free (format p)") simp_all
qed

text \<open>
  C8. Under the same conditions on the candidate disks, take a partitioned disk that is
  not to be cleared and none of whose partitions (the partitions of the tree whose disk
  it is) is to be cleared. Its entry has \<open>disk_free\<close> equal to the free space its label
  reports, and \<open>fs_free\<close> equal to the sum of the free space of its partitions'
  formats, a format without that attribute counting for nothing.
\<close>

theorem get_free_space_additive:
  assumes "ds = (case disks_arg of None \<Rightarrow> storage_disks st | Some l \<Rightarrow> l)"
    and "cpt = (case cpt_arg of None \<Rightarrow> clear_part_type (config st) | Some t \<Rightarrow> t)"
    and "d \<in> set ds" and "\<forall>x \<in> set ds. name x = name d \<longrightarrow> x = d"
    and "\<forall>x \<in> set ds. partitioned x \<longrightarrow> free (format x) \<noteq> None"
    and "partitioned d" and "free (format d) = Some label_free"
    and "\<not> should_clear st d (free_space_kwargs cpt d)"
    and "\<forall>p \<in> set (partitions st). dev_disk p = Some (name d) \<longrightarrow>
           \<not> should_clear st p (free_space_kwargs cpt d)"
  shows "\<exists>m. get_free_space st disks_arg cpt_arg = Inr m
             \<and> m (name d) = Some (label_free,
                  sum_list (map (\<lambda>p. case free (format p) of Some f \<Rightarrow> f | None \<Rightarrow> 0)
                    (filter (\<lambda>p. dev_disk p = Some (name d)) (partitions st))))"
proof -
  let ?ps = "filter (\<lambda>p. dev_disk p = Some (name d)) (partitions st)"
  from assms(9) have "\<forall>p \<in> set ?ps. \<not> should_clear st p (free_space_kwargs cpt d)"
    by simp
  then have "partitions_free st cpt d ?ps (label_free, 0) =
      (label_free, 0 + sum_list (map (\<lambda>p. case free (format p) of Some f \<Rightarrow> f | None \<Rightarrow> 0) ?ps))"
    by (rule partitions_free_kept)
  with assms(6-8) have "disk_free_space st cpt d = Inr (label_free,
      sum_list (map (\<lambda>p. case free (format p) of Some f \<Rightarrow> f | None \<Rightarrow> 0) ?ps))"
    by (simp add: disk_free_space_def)
  with assms(1-5) show ?thesis by (rule get_free_space_entry)
qed

lemma st_free_sda:
  "\<not> should_clear st_free sda (free_space_kwargs CLEAR_PARTITIONS_DEFAULT sda)"
  "\<not> should_clear st_free sda1 (free_space_kwargs CLEAR_PARTITIONS_DEFAULT sda)"
  "\<not> should_clear st_free sda2 (free_space_kwargs CLEAR_PARTITIONS_DEFAULT sda)"
  by (simp_all add: should_clear_iff effective_defs free_space_kwargs_def graph_defs
      st_free_def sda_def sda1_def sda2_def sdb_def device_defs format_defs storage_defs)

lemma st_free_dev_disk: "dev_disk sda1 = Some ''sda''" "dev_disk sda2 = Some ''sda''"
  by (simp_all add: sda1_def sda2_def device_defs)

theorem get_free_space_additive_witness:
  "partitioned sda \<and> free (format sda) = Some 50
   \<and> free (format sda1) = Some 100 \<and> free (format sda2) = None
   \<and> (\<exists>m. get_free_space st_free None None = Inr m \<and> m ''sda'' = Some (50, 100))"
proof -
  have f: "partitioned sda" "free (format sda) = Some 50" "free (format sda1) = Some 100"
    "free (format sda2) = None"
    by (simp_all add: sda_def sda1_def sda2_def device_defs format_defs)
  have "\<exists>m. get_free_space st_free None None = Inr m
             \<and> m (name sda) = Some (50,
                  sum_list (map (\<lambda>p. case free (format p) of Some f \<Rightarrow> f | None \<Rightarrow> 0)
                    (filter (\<lambda>p. dev_disk p = Some (name sda)) (partitions st_free))))"
  proof (rule get_free_space_additive [where ds = "[sda, sdb]"
        and cpt = CLEAR_PARTITIONS_DEFAULT])
    show "[sda, sdb] = (case None of None \<Rightarrow> storage_disks st_free | Some l \<Rightarrow> l)"
      by (simp add: st_free_disks)
    show "CLEAR_PARTITIONS_DEFAULT =
        (case None of None \<Rightarrow> clear_part_type (config st_free) | Some t \<Rightarrow> t)"
      by (simp add: st_free_type)
    show "sda \<in> set [sda, sdb]" by simp
    show "\<forall>x \<in> set [sda, sdb]. name x = name sda \<longrightarrow> x = sda"
      by (simp add: st_free_names)
    show "\<forall>x \<in> set [sda, sdb]. partitioned x \<longrightarrow> free (format x) \<noteq> None"
      by (rule st_free_labels)
    show "partitioned sda" "free (format sda) = Some 50" by (rule f)+
    show "\<not> should_clear st_free sda (free_space_kwargs CLEAR_PARTITIONS_DEFAULT sda)"
      by (rule st_free_sda)
    show "\<forall>p \<in> set (partitions st_free). dev_disk p = Some (name sda) \<longrightarrow>
           \<not> should_clear st_free p (free_space_kwargs CLEAR_PARTITIONS_DEFAULT sda)"
      by (simp add: st_free_partitions st_free_sda)
  qed
  with f show ?thesis
    by (simp add: st_free_partitions st_free_dev_disk st_free_names)
qed

subsection \<open>Free space and the ambient disk scope\<close>

lemma should_clear_scope_override:
  assumes "kw_clear_part_disks kw = Some l"
  shows "should_clear (st\<lparr>config := (config st)\<lparr>clear_part_disks := cpd\<rparr>\<rparr>) d kw
         = should_clear st d kw"
proof -
  let ?st = "st\<lparr>config := (config st)\<lparr>clear_part_disks := cpd\<rparr>\<rparr>"
  have e: "effective_type ?st kw = effective_type st kw"
    "effective_disks ?st kw = effective_disks st kw"
    "effective_devices ?st kw = effective_devices st kw"
    using assms by (simp_all add: effective_defs split: option.splits)
  have g: "empty_device ?st d = empty_device st d" by (simp add: empty_device_def)
  show ?thesis
    unfolding should_clear_iff e g by simp
qed

lemma partitions_free_scope:
  "partitions_free (st\<lparr>config := (config st)\<lparr>clear_part_disks := cpd\<rparr>\<rparr>) cpt d ps acc
   = partitions_free st cpt d ps acc"
proof (induction ps arbitrary: acc)
  case Nil
  then show ?case by simp
next
  case (Cons p ps)
  obtain a b where acc: "acc = (a, b)" by (cases acc)
  have "should_clear (st\<lparr>config := (config st)\<lparr>clear_part_disks := cpd\<rparr>\<rparr>) p
          (free_space_kwargs cpt d) = should_clear st p (free_space_kwargs cpt d)"
    by (rule should_clear_scope_override [where l = "[name d]"])
      (simp add: free_space_kwargs_def)
  with Cons.IH show ?case by (simp add: acc)
qed

lemma disk_free_space_scope:
  "disk_free_space (st\<lparr>config := (config st)\<lparr>clear_part_disks := cpd\<rparr>\<rparr>) cpt d
   = disk_free_space st cpt d"
proof -
  have "should_clear (st\<lparr>config := (config st)\<lparr>clear_part_disks := cpd\<rparr>\<rparr>) d
          (free_space_kwargs cpt d) = should_clear st d (free_space_kwargs cpt d)"
    by (rule should_clear_scope_override [where l = "[name d]"])
      (simp add: free_space_kwargs_def)
  moreover have "partitions (st\<lparr>config := (config st)\<lparr>clear_part_disks := cpd\<rparr>\<rparr>)
      = partitions st"
    by (simp add: partitions_def)
  ultimately show ?thesis
    unfolding disk_free_space_def partitions_free_scope by (simp split: option.splits)
qed

lemma free_space_loop_scope:
  "free_space_loop (st\<lparr>config := (config st)\<lparr>clear_part_disks := cpd\<rparr>\<rparr>) cpt ds fr
   = free_space_loop st cpt ds fr"
proof (induction ds arbitrary: fr)
  case Nil
  then show ?case by simp
next
  case (Cons x xs)
  show ?case
    unfolding free_space_loop.simps disk_free_space_scope Cons.IH ..
qed

text \<open>
  C10. The report of \<open>get_free_space\<close> does not depend on the ambient \<open>clear_part_disks\<close>:
  two configurations that differ only in that field give the same result (the same
  report, or the same error) for the same arguments, since every query of the clear
  policy passes the disk under evaluation as the disk scope.
\<close>

theorem get_free_space_scope_independent:
  "get_free_space (st\<lparr>config := (config st)\<lparr>clear_part_disks := cpd\<rparr>\<rparr>) disks_arg cpt_arg
   = get_free_space st disks_arg cpt_arg"
  by (simp add: get_free_space_def free_space_loop_scope storage_disks_def
      split: option.splits)

theorem get_free_space_scope_independent_witness:
  "get_free_space (st_free\<lparr>config := (config st_free)\<lparr>clear_part_disks := [''sdz'']\<rparr>\<rparr>)
     None None = get_free_space st_free None None
   \<and> clear_part_disks (config st_free) = []"
  using get_free_space_scope_independent [where st = st_free and cpd = "[''sdz'']"
      and disks_arg = None and cpt_arg = None]
  by (simp add: st_free_def storage_defs)

subsection \<open>Protected device handling\<close>

lemma marked_refl: "list_all2 marked devs devs"
  by (simp add: list_all2_same marked_def)

lemma marked_step: "marked a b \<Longrightarrow> marked b c \<Longrightarrow> marked a c"
  by (auto simp add: marked_def)

lemma marked_trans:
  "list_all2 marked xs ys \<Longrightarrow> list_all2 marked ys zs \<Longrightarrow> list_all2 marked xs zs"
  by (rule list_all2_trans [of marked marked marked]) (rule marked_step)

lemma set_protected_marked: "list_all2 marked devs (set_protected n devs)"
  by (simp add: set_protected_def list_all2_map2 list_all2_same marked_def)

lemma fold_set_protected_marked: "list_all2 marked devs (fold set_protected ps devs)"
proof (induction ps arbitrary: devs)
  case Nil
  then show ?case by (simp add: marked_refl)
next
  case (Cons p ps)
  have "list_all2 marked devs (set_protected p devs)"
    by (rule set_protected_marked)
  from marked_trans [OF this Cons.IH] show ?case by simp
qed

lemma marked_keeps:
  assumes "list_all2 marked devs devs'"
    and "\<forall>x \<in> set devs. name x \<in> S \<longrightarrow> protected x"
  shows "\<forall>x \<in> set devs'. name x \<in> S \<longrightarrow> protected x"
  using assms by (induction rule: list_all2_induct) (auto simp add: marked_def)

lemma marked_names:
  assumes "list_all2 marked devs devs'"
  shows "map name devs' = map name devs \<and> map parents devs' = map parents devs"
  using assms by (induction rule: list_all2_induct) (auto simp add: marked_def)

lemma marked_same:
  "marked a b \<Longrightarrow> name b = name a \<and> parents b = parents a \<and> (protected a \<longrightarrow> protected b)"
  unfolding marked_def by (erule disjE) simp_all

lemma marked_lookup:
  assumes "list_all2 marked devs devs'"
    and "get_device_by_name devs n = Some d"
  shows "\<exists>d'. get_device_by_name devs' n = Some d' \<and> parents d' = parents d"
  using assms
proof (induction arbitrary: d rule: list_all2_induct)
  case Nil
  then show ?case by (simp add: get_device_by_name_def)
next
  case (Cons x xs y ys)
  from marked_same [OF Cons.hyps(1)] have s: "name y = name x" "parents y = parents x"
    by simp_all
  show ?case
  proof (cases "name x = n")
    case True
    with Cons.prems s show ?thesis by (simp add: get_device_by_name_def)
  next
    case False
    with Cons.prems have "get_device_by_name xs n = Some d"
      by (simp add: get_device_by_name_def)
    from Cons.IH [OF this] False s show ?thesis by (simp add: get_device_by_name_def)
  qed
qed

lemma set_protected_one:
  "name (if name d = n then d\<lparr>protected := True\<rparr> else d) = n \<Longrightarrow>
     protected (if name d = n then d\<lparr>protected := True\<rparr> else d)"
  by (cases "name d = n") simp_all

lemma set_protected_sets:
  "\<forall>x \<in> set (set_protected n devs). name x \<in> {n} \<longrightarrow> protected x"
  unfolding set_protected_def set_map ball_simps singleton_iff
  using set_protected_one by blast

lemma fold_set_protected_sets:
  "\<forall>x \<in> set (fold set_protected ps devs). name x \<in> set ps \<longrightarrow> protected x"
proof (induction ps arbitrary: devs)
  case Nil
  then show ?case by simp
next
  case (Cons p ps)
  let ?r = "fold set_protected ps (set_protected p devs)"
  have a: "\<forall>x \<in> set ?r. name x \<in> {p} \<longrightarrow> protected x"
    by (rule marked_keeps [OF fold_set_protected_marked set_protected_sets])
  have b: "\<forall>x \<in> set ?r. name x \<in> set ps \<longrightarrow> protected x"
    by (rule Cons.IH)
  show ?case
  proof (intro ballI impI)
    fix x assume x: "x \<in> set (fold set_protected (p # ps) devs)"
      and "name x \<in> set (p # ps)"
    then have "name x \<in> {p} \<or> name x \<in> set ps" by simp
    with a b x show "protected x" by auto
  qed
qed

lemma mark_protected_device_marked:
  "list_all2 marked (devices st) (devices (mark_protected_device st dev))
   \<and> protected_dev_names (mark_protected_device st dev) = protected_dev_names st
   \<and> live_backing_device (mark_protected_device st dev) = live_backing_device st"
  using marked_trans [OF set_protected_marked fold_set_protected_marked]
  by (simp add: mark_protected_device_def Let_def marked_refl set_protected_marked)

lemma mark_protected_devices_marked:
  "mark_protected_devices ns st = Inr st' \<Longrightarrow>
     list_all2 marked (devices st) (devices st')
     \<and> protected_dev_names st' = protected_dev_names st
     \<and> live_backing_device st' = live_backing_device st"
proof (induction ns arbitrary: st)
  case Nil
  then show ?case by (simp add: marked_refl)
next
  case (Cons m rest)
  from Cons.prems obtain d where d: "get_device_by_name (devices st) m = Some d"
    and r: "mark_protected_devices rest (mark_protected_device st d) = Inr st'"
    by (auto split: option.splits)
  from Cons.IH [OF r] mark_protected_device_marked [of st d] show ?case
    using marked_trans by auto
qed

lemma mark_live_device:
  assumes "name dev \<in> set (protected_dev_names st)"
    and "live_backing_device st = Some (name dev)"
  shows "\<forall>x \<in> set (devices (mark_protected_device st dev)).
           name x \<in> insert (name dev) (set (parents dev)) \<longrightarrow> protected x"
proof -
  let ?d1 = "set_protected (name dev) (devices st)"
  have d: "devices (mark_protected_device st dev) = fold set_protected (parents dev) ?d1"
    using assms by (simp add: mark_protected_device_def Let_def)
  have a: "\<forall>x \<in> set (fold set_protected (parents dev) ?d1).
      name x \<in> {name dev} \<longrightarrow> protected x"
    by (rule marked_keeps [OF fold_set_protected_marked set_protected_sets])
  have b: "\<forall>x \<in> set (fold set_protected (parents dev) ?d1).
      name x \<in> set (parents dev) \<longrightarrow> protected x"
    by (rule fold_set_protected_sets)
  show ?thesis
    unfolding d
  proof (intro ballI impI)
    fix x assume x: "x \<in> set (fold set_protected (parents dev) ?d1)"
      and "name x \<in> insert (name dev) (set (parents dev))"
    then have "name x \<in> {name dev} \<or> name x \<in> set (parents dev)" by simp
    with a b x show "protected x" by auto
  qed
qed

lemma get_device_by_name_name:
  "get_device_by_name devs n = Some d \<Longrightarrow> name d = n"
  by (auto simp add: get_device_by_name_def find_Some_iff)

lemma mark_protected_devices_live:
  assumes "mark_protected_devices ns st = Inr st'"
    and "n \<in> set ns" and "n \<in> set (protected_dev_names st)"
    and "live_backing_device st = Some n"
    and "get_device_by_name (devices st) n = Some dev"
  shows "\<forall>x \<in> set (devices st'). name x \<in> insert n (set (parents dev)) \<longrightarrow> protected x"
  using assms
proof (induction ns arbitrary: st dev)
  case Nil
  then show ?case by simp
next
  case (Cons m rest)
  from Cons.prems(1) obtain d where d: "get_device_by_name (devices st) m = Some d"
    and r: "mark_protected_devices rest (mark_protected_device st d) = Inr st'"
    by (auto split: option.splits)
  note k = mark_protected_device_marked [of st d]
  show ?case
  proof (cases "m = n")
    case True
    with d Cons.prems(5) have e: "d = dev" by simp
    have nm: "name dev = n" using Cons.prems(5) by (rule get_device_by_name_name)
    have "\<forall>x \<in> set (devices (mark_protected_device st dev)).
           name x \<in> insert (name dev) (set (parents dev)) \<longrightarrow> protected x"
      using Cons.prems(3,4) nm by (intro mark_live_device) simp_all
    then have "\<forall>x \<in> set (devices (mark_protected_device st d)).
           name x \<in> insert n (set (parents dev)) \<longrightarrow> protected x"
      using e nm by simp
    with conjunct1 [OF mark_protected_devices_marked [OF r]] show ?thesis
      by (rule marked_keeps)
  next
    case False
    with Cons.prems(2) have "n \<in> set rest" by simp
    moreover from k Cons.prems(3,4)
    have "n \<in> set (protected_dev_names (mark_protected_device st d))"
      "live_backing_device (mark_protected_device st d) = Some n"
      by simp_all
    moreover from marked_lookup [OF conjunct1 [OF k] Cons.prems(5)]
    obtain dev' where "get_device_by_name (devices (mark_protected_device st d)) n = Some dev'"
      "parents dev' = parents dev" by blast
    ultimately show ?thesis using Cons.IH [OF r, of dev'] by simp
  qed
qed

lemma resolve_protected_device_specs_devices:
  "devices (resolve_protected_device_specs resolve_device specs st) = devices st"
  by (induction specs arbitrary: st) (simp_all split: option.splits)

text \<open>
  C9, as stated, fails. The live image is the volume \<open>vg0-live\<close> of the group \<open>vg0\<close> on
  the partition \<open>sdg2\<close> of the disk \<open>sdg\<close>. Protected device handling marks the volume
  and its parent \<open>vg0\<close>; the ancestors \<open>sdg2\<close> and \<open>sdg\<close> stay unprotected.
\<close>

theorem live_ancestors_counterexample:
  "protected_device_handling (\<lambda>spec. None) (Some ''vg0-live'') st_live =
     Inr (st_live\<lparr>devices := [sdg, sdg2, vg0\<lparr>protected := True\<rparr>, lv_live\<lparr>protected := True\<rparr>],
                 protected_dev_names := [''vg0-live''],
                 live_backing_device := Some ''vg0-live''\<rparr>)
   \<and> ''sdg2'' \<in> set (ancestors (devices st_live) lv_live) \<and> \<not> protected sdg2
   \<and> ''sdg'' \<in> set (ancestors (devices st_live) lv_live) \<and> \<not> protected sdg"
  by (simp add: protected_device_handling_def find_live_backing_device_def
      mark_protected_device_def get_device_by_name_def set_protected_def ancestors_def
      st_live_def sdg_def sdg2_def vg0_def lv_live_def format_defs device_defs storage_defs)

text \<open>
  C9, amended. When protected device handling at reset time returns and the live backing
  device was identified as the device named \<open>n\<close> of the tree, the tree has the same
  devices with the same parents as before, and that device and each of its direct
  parents are marked protected.
\<close>

theorem live_parents_protected:
  assumes "protected_device_handling resolve_device (Some n) st = Inr st'"
    and "n \<noteq> []"
    and "get_device_by_name (devices st) n = Some dev"
  shows "map name (devices st') = map name (devices st)
     \<and> map parents (devices st') = map parents (devices st)
     \<and> live_backing_device st' = Some n
     \<and> (\<forall>x \<in> set (devices st'). name x = n \<or> name x \<in> set (parents dev) \<longrightarrow> protected x)"
proof -
  let ?st1 = "resolve_protected_device_specs resolve_device
                (protected_dev_specs (config st)) (st\<lparr>protected_dev_names := []\<rparr>)"
  let ?st2 = "?st1\<lparr>protected_dev_names := protected_dev_names ?st1 @ [n],
                   live_backing_device := Some n\<rparr>"
  from assms(1,2) have m: "mark_protected_devices (protected_dev_names ?st2) ?st2 = Inr st'"
    by (simp add: protected_device_handling_def find_live_backing_device_def Let_def)
  have dv: "devices ?st2 = devices st"
    by (simp add: resolve_protected_device_specs_devices)
  note k = mark_protected_devices_marked [OF m]
  from k dv marked_names [of "devices st" "devices st'"]
  have a: "map name (devices st') = map name (devices st)
      \<and> map parents (devices st') = map parents (devices st)" by simp
  from k have b: "live_backing_device st' = Some n" by simp
  have "\<forall>x \<in> set (devices st'). name x \<in> insert n (set (parents dev)) \<longrightarrow> protected x"
    by (rule mark_protected_devices_live [OF m]) (simp_all add: dv assms(3))
  with a b show ?thesis by simp
qed

theorem live_parents_protected_witness:
  "get_device_by_name (devices st_live) ''vg0-live'' = Some lv_live
   \<and> parents lv_live = [''vg0'']
   \<and> (\<exists>st'. protected_device_handling (\<lambda>spec. None) (Some ''vg0-live'') st_live = Inr st'
        \<and> map name (devices st') = [''sdg'', ''sdg2'', ''vg0'', ''vg0-live'']
        \<and> get_device_by_name (devices st') ''vg0'' = Some (vg0\<lparr>protected := True\<rparr>)
        \<and> get_device_by_name (devices st') ''vg0-live'' = Some (lv_live\<lparr>protected := True\<rparr>))"
proof -
  let ?st' = "st_live\<lparr>devices := [sdg, sdg2, vg0\<lparr>protected := True\<rparr>,
                 lv_live\<lparr>protected := True\<rparr>],
               protected_dev_names := [''vg0-live''],
               live_backing_device := Some ''vg0-live''\<rparr>"
  have r: "protected_device_handling (\<lambda>spec. None) (Some ''vg0-live'') st_live = Inr ?st'"
    by (simp add: protected_device_handling_def find_live_backing_device_def
        mark_protected_device_def get_device_by_name_def set_protected_def
        st_live_def sdg_def sdg2_def vg0_def lv_live_def format_defs device_defs storage_defs)
  have g: "get_device_by_name (devices st_live) ''vg0-live'' = Some lv_live"
    by (simp add: get_device_by_name_def st_live_def sdg_def sdg2_def vg0_def lv_live_def
        device_defs storage_defs)
  have n: "name sdg = ''sdg''" "name sdg2 = ''sdg2''" "name vg0 = ''vg0''"
    "name lv_live = ''vg0-live''" "parents lv_live = [''vg0'']"
    by (simp_all add: sdg_def sdg2_def vg0_def lv_live_def device_defs)
  have c: "''vg0-live'' \<noteq> []" by simp
  from live_parents_protected [OF r c g] r g n show ?thesis
    by (simp add: get_device_by_name_def st_live_def storage_defs)
qed

subsection \<open>Clearing\<close>









text \<open>
  With \<open>clear_non_existent\<close> set, a disk that a run has cleared and given a fresh label
  is still one that \<open>should_clear\<close> approves under mode ALL: the next run removes and
  initialises it again.
\<close>

lemma clear_partitions_planned_example:
  "devices (clear_partitions spec_remove spec_remove_empty_extended spec_initialize_disk
      st_all_planned) = devices st_cleared
   \<and> should_clear
        (clear_partitions spec_remove spec_remove_empty_extended spec_initialize_disk
           st_all_planned)
        (hd (devices st_cleared)) no_kwargs"
  by (simp add: clear_partitions_def partitions_def storage_disks_def partition_number_def
      current_def get_device_by_name_def spec_remove_empty_extended_def spec_remove_def
      spec_initialize_disk_def should_clear_iff effective_defs graph_defs Let_def
      st_all_planned_def st_all_def st_cleared_def sda_def sda1_def sda2_def format_defs
      device_defs storage_defs)



end
